theory Spec2Isabelle
  imports Main "HOL-Library.Word"
begin

section \<open>The Go runtime and library functions that argument.go calls\<close>

text \<open>
  A Go string is a sequence of bytes: \<open>len\<close> counts bytes and \<open>s[i]\<close> is a byte, which is
  what \<^typ>\<open>string\<close> (a list of 8-bit characters) gives. An \<open>error\<close> value is
  represented by its message.
\<close>

type_synonym error = string

text \<open>
  How a call ends: it returns a value, it prints a text and leaves the process through
  \<open>os.Exit(0)\<close>, or it stops in a run-time panic (index out of range); the panic carries
  the state that the call had reached.
\<close>

datatype 'a outcome = Return 'a | Exit string | Panic 'a

text \<open>Go's \<open>int\<close> is a signed 64-bit integer; addition wraps around.\<close>

definition go_int :: "int \<Rightarrow> int" where
  "go_int x = (x + 2 ^ 63) mod 2 ^ 64 - 2 ^ 63"

definition strings_HasPrefix :: "string \<Rightarrow> string \<Rightarrow> bool" where
  "strings_HasPrefix s pre = (length pre \<le> length s \<and> take (length pre) s = pre)"

fun strings_Contains :: "string \<Rightarrow> string \<Rightarrow> bool" where
  "strings_Contains [] substr = (substr = [])"
| "strings_Contains (c # cs) substr =
     (strings_HasPrefix (c # cs) substr \<or> strings_Contains cs substr)"

text \<open>
  \<open>strings.Replace(s, old, new, -1)\<close>: every non-overlapping occurrence of \<open>old\<close>, from
  the left, is replaced by \<open>new\<close>. (With an empty \<open>old\<close> Go inserts \<open>new\<close> at every
  position; argument.go only calls it with an empty \<open>new\<close>, where that is the identity.)
\<close>

function strings_Replace :: "string \<Rightarrow> string \<Rightarrow> string \<Rightarrow> string" where
  "strings_Replace [] old new = []"
| "strings_Replace (c # cs) old new =
     (if old \<noteq> [] \<and> strings_HasPrefix (c # cs) old
      then new @ strings_Replace (drop (length old) (c # cs)) old new
      else c # strings_Replace cs old new)"
  by pat_completeness auto
termination
  by (relation "measure (\<lambda>(s, old, new). length s)") (auto simp: neq_Nil_conv)

fun strings_Join :: "string list \<Rightarrow> string \<Rightarrow> string" where
  "strings_Join [] sep = []"
| "strings_Join [x] sep = x"
| "strings_Join (x # y # ys) sep = x @ sep @ strings_Join (y # ys) sep"

text \<open>An open file, as \<open>os.OpenFile\<close> returns it: its descriptor.\<close>

datatype os_File = os_File nat

section \<open>The argument definition\<close>

text \<open>
  Modelled from the spec: the type \<open>Options\<close> is declared outside argument.go, which reads
  its fields \<open>Required\<close> (a boolean, used by usage only) and \<open>Validate\<close> (an optional
  function from the argument tokens to an error or nil).
\<close>

record Options =
  Required :: bool
  Validate :: "(string list \<Rightarrow> error option) option"

text \<open>
  The field \<open>result\<close> is an \<open>interface{}\<close> holding a pointer to the caller's variable; the
  type switches of argument.go tell the pointer types apart. The model keeps the kind
  together with the value the pointer refers to. \<open>PHelp\<close> is \<open>*help\<close>, \<open>PBool\<close> is
  \<open>*bool\<close>, \<open>PString\<close> is \<open>*string\<close>, \<open>PFile\<close> is \<open>*os.File\<close>, \<open>PStrings\<close> is
  \<open>*[]string\<close>; \<open>POther\<close> is any other dynamic type, with the text that
  \<open>fmt\<close> prints for it under the verb \<open>%t\<close>.
\<close>

datatype result =
    PHelp
  | PBool bool
  | PString string
  | PFile os_File
  | PStrings "string list"
  | POther string

text \<open>
  The struct \<open>arg\<close>. The pointers \<open>opts\<close> and \<open>selector\<close> may be nil (\<open>None\<close>). Of the
  owning command (declared outside argument.go) only the text that its method \<open>Usage\<close>
  returns is used; the field \<open>parent_Usage\<close> holds it.
\<close>

record arg =
  result :: result
  opts :: "Options option"
  sname :: string
  lname :: string
  arg_size :: int
  unique :: bool
  parsed :: bool
  fileFlag :: int
  filePerm :: "32 word"
  selector :: "string list option"
  parent_Usage :: string

subsection \<open>check\<close>

definition check :: "arg \<Rightarrow> string \<Rightarrow> bool outcome" where
  "check opt argument =
     (if argument = ''-h'' \<or> argument = ''--help'' then Exit (parent_Usage opt)
      else if lname opt \<noteq> [] \<and> length argument > 2 \<and> strings_HasPrefix argument ''--''
              \<and> argument ! 2 \<noteq> CHR ''-'' \<and> drop 2 argument = lname opt
      then Return True
      else if sname opt \<noteq> [] \<and> length argument > 1 \<and> strings_HasPrefix argument ''-''
              \<and> argument ! 1 \<noteq> CHR ''-''
              \<and> (case result opt of
                    PBool b \<Rightarrow> strings_Contains (drop 1 argument) (sname opt)
                  | _ \<Rightarrow> drop 1 argument = sname opt)
      then Return True
      else Return False)"

subsection \<open>reduce\<close>

text \<open>
  The loop \<open>for i := position; i < position+o.size; i++ { (*args)[i] = "" }\<close>, with
  \<open>stop\<close> the value of \<open>position+o.size\<close>. Writing outside the slice panics.
\<close>

function blank_loop :: "int \<Rightarrow> int \<Rightarrow> string list \<Rightarrow> string list outcome" where
  "blank_loop i stop args =
     (if i < stop
      then (if 0 \<le> i \<and> i < int (length args)
            then blank_loop (i + 1) stop (args[nat i := []])
            else Panic args)
      else Return args)"
  by pat_completeness auto
termination
  by (relation "measure (\<lambda>(i, stop, args). nat (stop - i))") auto

definition reduce :: "arg \<Rightarrow> int \<Rightarrow> string list \<Rightarrow> string list outcome" where
  "reduce opt position args =
     (if position < 0 \<or> int (length args) \<le> position then Panic args
      else
        let argument = args ! nat position;
            long =
              (if lname opt \<noteq> [] \<and> length argument > 2 \<and> strings_HasPrefix argument ''--''
                  \<and> argument ! 2 \<noteq> CHR ''-'' \<and> drop 2 argument = lname opt
               then blank_loop position (go_int (position + arg_size opt)) args
               else Return args)
        in case long of
             Return args1 \<Rightarrow>
               (if sname opt \<noteq> [] \<and> length argument > 1 \<and> strings_HasPrefix argument ''-''
                   \<and> argument ! 1 \<noteq> CHR ''-''
                then (case result opt of
                        PBool b \<Rightarrow>
                          (if strings_Contains (drop 1 argument) (sname opt)
                           then
                             let args2 = args1[nat position := strings_Replace argument (sname opt) []]
                             in Return (if args2 ! nat position = ''-''
                                        then args2[nat position := []] else args2)
                           else Return args1)
                      | _ \<Rightarrow>
                          (if drop 1 argument = sname opt
                           then blank_loop position (go_int (position + arg_size opt)) args1
                           else Return args1))
                else Return args1)
           | other \<Rightarrow> other)"

subsection \<open>name and usage\<close>

definition name :: "arg \<Rightarrow> string" where
  "name opt =
     (if lname opt = [] then ''-'' @ sname opt
      else if sname opt = [] then ''--'' @ lname opt
      else ''-'' @ sname opt @ ''|'' @ ''--'' @ lname opt)"

text \<open>The double quote character of the placeholders.\<close>

definition dquote :: char where
  "dquote = CHR 0x22"

definition usage :: "arg \<Rightarrow> string" where
  "usage opt =
     (let result0 = name opt;
          result1 =
            (case result opt of
               PBool b \<Rightarrow> result0
             | PString s \<Rightarrow>
                 (case selector opt of
                    Some sel \<Rightarrow> result0 @ '' ('' @ strings_Join sel ''|'' @ '')''
                  | None \<Rightarrow> result0 @ '' '' @ [dquote] @ ''<value>'' @ [dquote])
             | PFile f \<Rightarrow> result0 @ '' <file>''
             | PStrings l \<Rightarrow> result0 @ '' '' @ [dquote] @ ''<string>'' @ [dquote]
             | _ \<Rightarrow> result0)
      in if (case opts opt of None \<Rightarrow> True | Some os \<Rightarrow> Required os = False)
         then ''['' @ result1 @ '']'' else result1)"

subsection \<open>parse\<close>

text \<open>
  The validation step: \<open>if o.opts != nil && o.opts.Validate != nil { err := o.opts.Validate(args) ... }\<close>.
\<close>

definition validate :: "arg \<Rightarrow> string list \<Rightarrow> error option" where
  "validate opt args =
     (case opts opt of
        None \<Rightarrow> None
      | Some os \<Rightarrow> (case Validate os of None \<Rightarrow> None | Some v \<Rightarrow> v args))"

text \<open>
  The loop \<open>for _, v := range *o.selector { if args[0] == v { match = true } }\<close>,
  started with \<open>match = false\<close>.
\<close>

definition selector_match :: "string \<Rightarrow> string list \<Rightarrow> bool" where
  "selector_match a sel = fold (\<lambda>v match. if a = v then True else match) sel False"

text \<open>
  \<open>parse\<close> changes the fields \<open>parsed\<close> and the variable behind \<open>result\<close>: the model
  returns the error (\<open>None\<close> is nil) together with the definition after the call. The
  file system is the parameter \<open>OpenFile\<close>, which stands for \<open>os.OpenFile\<close>.
  \<open>%v\<close> prints a slice of strings as its elements between brackets, separated by blanks.
\<close>

definition parse ::
  "(string \<Rightarrow> int \<Rightarrow> 32 word \<Rightarrow> error + os_File) \<Rightarrow> arg \<Rightarrow> string list
     \<Rightarrow> (error option \<times> arg) outcome" where
  "parse OpenFile opt args =
     (if unique opt \<and> parsed opt
      then Return (Some (''['' @ name opt @ ''] can only be present once''), opt)
      else
        case validate opt args of
          Some err \<Rightarrow> Return (Some err, opt)
        | None \<Rightarrow>
            (case result opt of
               PHelp \<Rightarrow> Exit (parent_Usage opt)
             | PBool b \<Rightarrow> Return (None, opt\<lparr>result := PBool True, parsed := True\<rparr>)
             | PString s \<Rightarrow>
                 (if length args < 1
                  then Return (Some (''['' @ name opt @ ''] must be followed by a string''), opt)
                  else if length args > 1
                  then Return (Some (''['' @ name opt @ ''] followed by too many arguments''), opt)
                  else if (case selector opt of
                             None \<Rightarrow> False
                           | Some sel \<Rightarrow> \<not> selector_match (args ! 0) sel)
                  then Return (Some (''bad value for ['' @ name opt @ '']. Allowed values are [''
                                       @ strings_Join (the (selector opt)) '' '' @ '']''), opt)
                  else Return (None, opt\<lparr>result := PString (args ! 0), parsed := True\<rparr>))
             | PFile f0 \<Rightarrow>
                 (if length args < 1
                  then Return (Some (''['' @ name opt @ ''] must be followed by a path to file''), opt)
                  else if length args > 1
                  then Return (Some (''['' @ name opt @ ''] followed by too many arguments''), opt)
                  else (case OpenFile (args ! 0) (fileFlag opt) (filePerm opt) of
                          Inl err \<Rightarrow> Return (Some err, opt)
                        | Inr f \<Rightarrow> Return (None, opt\<lparr>result := PFile f, parsed := True\<rparr>)))
             | PStrings l \<Rightarrow>
                 (if length args < 1
                  then Return (Some (''['' @ name opt @ ''] must be followed by a string''), opt)
                  else if length args > 1
                  then Return (Some (''['' @ name opt @ ''] followed by too many arguments''), opt)
                  else Return (None, opt\<lparr>result := PStrings (l @ [args ! 0]), parsed := True\<rparr>))
             | POther t \<Rightarrow> Return (Some (''unsupported type ['' @ t @ '']''), opt)))"

section \<open>Concrete definitions and environments\<close>

text \<open>
  A Single-string option \<open>-o|--out\<close> taking one value, a Boolean flag \<open>-x|--extra\<close> and
  the help option \<open>-h|--help\<close>, each with the size that counts the option token together
  with its values; variants of the first one; a file system without files and a validator
  that rejects everything.
\<close>

definition example_arg :: arg where
  "example_arg =
     \<lparr>result = PString [], opts = None, sname = ''o'', lname = ''out'', arg_size = 2,
      unique = False, parsed = False, fileFlag = 0, filePerm = 0, selector = None,
      parent_Usage = ''usage''\<rparr>"

definition flag_arg :: arg where
  "flag_arg = example_arg\<lparr>result := PBool False, sname := ''x'', lname := ''extra'', arg_size := 1\<rparr>"

definition help_arg :: arg where
  "help_arg = example_arg\<lparr>result := PHelp, sname := ''h'', lname := ''help'', arg_size := 1\<rparr>"

definition no_files :: "string \<Rightarrow> int \<Rightarrow> 32 word \<Rightarrow> error + os_File" where
  "no_files path flag perm = Inl (''open '' @ path @ '': no such file or directory'')"

definition reject_all :: "string list \<Rightarrow> error option" where
  "reject_all args = Some ''rejected by the validator''"

definition dup_arg :: arg where
  "dup_arg = example_arg\<lparr>unique := True, parsed := True\<rparr>"

definition choice_arg :: arg where
  "choice_arg = example_arg\<lparr>unique := True, selector := Some [''a'', ''b'']\<rparr>"

definition chosen_arg :: arg where
  "chosen_arg = choice_arg\<lparr>result := PString ''b'', parsed := True\<rparr>"

definition validated_arg :: arg where
  "validated_arg = example_arg\<lparr>opts := Some \<lparr>Required = True, Validate = Some reject_all\<rparr>\<rparr>"

definition file_arg :: arg where
  "file_arg = example_arg\<lparr>result := PFile (os_File 0)\<rparr>"

definition other_arg :: arg where
  "other_arg = example_arg\<lparr>result := POther ''%!t(*int=0xc000012345)''\<rparr>"

definition required_arg :: arg where
  "required_arg = example_arg\<lparr>opts := Some \<lparr>Required = True, Validate = None\<rparr>\<rparr>"

definition optional_arg :: arg where
  "optional_arg = example_arg\<lparr>opts := Some \<lparr>Required = False, Validate = None\<rparr>\<rparr>"

section \<open>Facts about the library functions and the blanking loop\<close>

declare blank_loop.simps [simp del]
declare strings_Replace.simps [simp del]

lemma go_int_id: "- (2 ^ 63) \<le> x \<Longrightarrow> x < 2 ^ 63 \<Longrightarrow> go_int x = x"
  by (simp add: go_int_def)

lemma HasPrefix_ddash: "strings_HasPrefix t ''--'' \<longleftrightarrow> (\<exists>r. t = CHR ''-'' # CHR ''-'' # r)"
  by (cases t; cases "tl t") (auto simp: strings_HasPrefix_def)

lemma HasPrefix_iff: "strings_HasPrefix s pre \<longleftrightarrow> (\<exists>v. s = pre @ v)"
  unfolding strings_HasPrefix_def
  by (metis append_eq_conv_conj append_take_drop_id length_append le_add1)

lemma Contains_iff: "strings_Contains s sub \<longleftrightarrow> (\<exists>u v. s = u @ sub @ v)"
proof (induction s)
  case Nil
  then show ?case by auto
next
  case (Cons c cs)
  show ?case
  proof
    assume "strings_Contains (c # cs) sub"
    then consider "strings_HasPrefix (c # cs) sub" | "strings_Contains cs sub" by auto
    then show "\<exists>u v. c # cs = u @ sub @ v"
    proof cases
      case 1
      then obtain v where "c # cs = sub @ v" by (auto simp: HasPrefix_iff)
      then have "c # cs = [] @ sub @ v" by simp
      then show ?thesis by blast
    next
      case 2
      then obtain u v where "cs = u @ sub @ v" using Cons.IH by blast
      then have "c # cs = (c # u) @ sub @ v" by simp
      then show ?thesis by blast
    qed
  next
    assume "\<exists>u v. c # cs = u @ sub @ v"
    then obtain u v where uv: "c # cs = u @ sub @ v" by blast
    show "strings_Contains (c # cs) sub"
    proof (cases u)
      case Nil
      then have "strings_HasPrefix (c # cs) sub" using uv by (auto simp: HasPrefix_iff)
      then show ?thesis by simp
    next
      case (Cons d u')
      then have "cs = u' @ sub @ v" using uv by simp
      then have "strings_Contains cs sub" using Cons.IH by blast
      then show ?thesis by simp
    qed
  qed
qed

lemma Replace_single: "strings_Replace t [x] [] = filter (\<lambda>c. c \<noteq> x) t"
  by (induction t) (auto simp: strings_Replace.simps strings_HasPrefix_def)

lemma blank_loop_noop: "stop \<le> i \<Longrightarrow> blank_loop i stop args = Return args"
  by (subst blank_loop.simps) simp

lemma blank_loop_ok:
  "0 \<le> i \<Longrightarrow> i \<le> stop \<Longrightarrow> stop \<le> int (length args) \<Longrightarrow>
   blank_loop i stop args =
     Return (take (nat i) args @ replicate (nat (stop - i)) [] @ drop (nat stop) args)"
proof (induction i stop args rule: blank_loop.induct)
  case (1 i stop args)
  show ?case
  proof (cases "i < stop")
    case False
    with "1.prems" have "i = stop" by simp
    then show ?thesis by (simp add: blank_loop_noop)
  next
    case True
    with "1.prems" have inr: "0 \<le> i \<and> i < int (length args)" by simp
    have step: "blank_loop i stop args = blank_loop (i + 1) stop (args[nat i := []])"
      using True inr by (subst blank_loop.simps) simp
    have ih: "blank_loop (i + 1) stop (args[nat i := []]) =
      Return (take (nat (i + 1)) (args[nat i := []]) @ replicate (nat (stop - (i + 1))) []
              @ drop (nat stop) (args[nat i := []]))"
      using "1.IH"[OF True inr] True "1.prems" by simp
    have n1: "nat (i + 1) = Suc (nat i)" using inr by arith
    have n2: "nat (stop - i) = Suc (nat (stop - (i + 1)))" using True by arith
    have lt: "nat i < length args" using inr by arith
    have t: "take (Suc (nat i)) (args[nat i := []]) = take (nat i) args @ [[]]"
      using lt by (simp add: take_Suc_conv_app_nth)
    have d: "drop (nat stop) (args[nat i := []]) = drop (nat stop) args"
      using True inr by simp
    show ?thesis
      unfolding step ih n1 n2 t d by (simp add: replicate_app_Cons_same)
  qed
qed

lemma HasPrefix_longer:
  assumes "length old \<le> length s"
  shows "strings_HasPrefix (s @ r) old \<longleftrightarrow> strings_HasPrefix s old"
  using assms by (simp add: strings_HasPrefix_def)

lemma Replace_first:
  assumes "old \<noteq> []" and "\<not> strings_Contains (u @ butlast old) old"
  shows "strings_Replace (u @ old @ rest) old new = u @ new @ strings_Replace rest old new"
  using assms(2)
proof (induction u)
  case Nil
  obtain c cs where o: "old = c # cs" using assms(1) by (cases old) auto
  have "strings_HasPrefix (old @ rest) old" by (simp add: strings_HasPrefix_def)
  then show ?case using o by (simp add: strings_Replace.simps)
next
  case (Cons c u)
  have split: "(c # u) @ old @ rest = ((c # u) @ butlast old) @ (last old # rest)"
    using assms(1) by simp
  have len: "length old \<le> length ((c # u) @ butlast old)"
    using assms(1) by simp
  have np: "\<not> strings_HasPrefix ((c # u) @ butlast old) old"
    using Cons.prems by simp
  have "\<not> strings_HasPrefix ((c # u) @ old @ rest) old"
    unfolding split using HasPrefix_longer [OF len] np by blast
  moreover have "\<not> strings_Contains (u @ butlast old) old"
    using Cons.prems by simp
  ultimately show ?case
    using Cons.IH by (simp add: strings_Replace.simps)
qed

lemma Replace_once:
  assumes "x \<noteq> CHR ''-''" and "x \<notin> set pre" and "x \<notin> set post"
  shows "strings_Replace (CHR ''-'' # pre @ x # post) [x] [] = CHR ''-'' # pre @ post"
proof -
  have "filter (\<lambda>c. c \<noteq> x) pre = pre" and "filter (\<lambda>c. c \<noteq> x) post = post"
    using assms(2,3) by (auto intro: filter_True)
  then show ?thesis using assms(1) by (simp add: Replace_single)
qed

section \<open>Matching\<close>

lemma check_Return:
  "argument \<noteq> ''-h'' \<Longrightarrow> argument \<noteq> ''--help'' \<Longrightarrow>
   check opt argument =
     Return ((lname opt \<noteq> [] \<and> length argument > 2 \<and> strings_HasPrefix argument ''--''
                \<and> argument ! 2 \<noteq> CHR ''-'' \<and> drop 2 argument = lname opt)
             \<or> (sname opt \<noteq> [] \<and> length argument > 1 \<and> strings_HasPrefix argument ''-''
                \<and> argument ! 1 \<noteq> CHR ''-''
                \<and> (case result opt of
                      PBool b \<Rightarrow> strings_Contains (drop 1 argument) (sname opt)
                    | _ \<Rightarrow> drop 1 argument = sname opt)))"
  by (simp add: check_def)

lemma check_Exit:
  "argument = ''-h'' \<or> argument = ''--help'' \<Longrightarrow> check opt argument = Exit (parent_Usage opt)"
  by (simp add: check_def)

lemma single_marker_not_long:
  "strings_HasPrefix t ''-'' \<Longrightarrow> 1 < length t \<Longrightarrow> t ! 1 \<noteq> CHR ''-'' \<Longrightarrow>
   \<not> strings_HasPrefix t ''--''"
  by (auto simp: HasPrefix_ddash)

lemma double_marker_not_short:
  "strings_HasPrefix t ''--'' \<Longrightarrow> t ! 1 = CHR ''-''"
  by (auto simp: HasPrefix_ddash)

text \<open>
  Claim C4. For a definition with a non-empty short name and a single-marker token (longer
  than one character, starting with the marker, second character not the marker) other
  than the reserved token \<open>-h\<close>: a Boolean flag matches iff the remainder of the token
  contains the short name as a substring; every other kind matches iff the remainder
  equals the short name, so that a token made of the marker, the short name and further
  characters does not match; and check returns. At the token \<open>-h\<close> check prints the usage
  text and leaves the process instead of returning, whatever the short name is.
\<close>

theorem check_short_name:
  assumes "sname opt \<noteq> []" and "1 < length t" and "strings_HasPrefix t ''-''"
    and "t ! 1 \<noteq> CHR ''-''" and "t \<noteq> ''-h''"
  shows "((\<exists>b. result opt = PBool b) \<longrightarrow>
            (check opt t = Return True \<longleftrightarrow> (\<exists>u v. drop 1 t = u @ sname opt @ v)))
       \<and> ((\<forall>b. result opt \<noteq> PBool b) \<longrightarrow>
            (check opt t = Return True \<longleftrightarrow> drop 1 t = sname opt))
       \<and> ((\<forall>b. result opt \<noteq> PBool b) \<longrightarrow>
            (\<forall>e. e \<noteq> [] \<and> t = ''-'' @ sname opt @ e \<longrightarrow> check opt t = Return False))
       \<and> (check opt t = Return True \<or> check opt t = Return False)
       \<and> check opt ''-h'' = Exit (parent_Usage opt)"
proof -
  have nl: "\<not> strings_HasPrefix t ''--''"
    using assms by (simp add: single_marker_not_long)
  have nh: "t \<noteq> ''--help''"
    using nl by (auto simp: HasPrefix_ddash)
  have eq: "check opt t =
      Return (case result opt of
                PBool b \<Rightarrow> strings_Contains (drop 1 t) (sname opt)
              | _ \<Rightarrow> drop 1 t = sname opt)"
    using assms nl nh by (simp add: check_Return)
  have a: "(\<exists>b. result opt = PBool b) \<longrightarrow>
            (check opt t = Return True \<longleftrightarrow> (\<exists>u v. drop 1 t = u @ sname opt @ v))"
    unfolding eq by (auto simp: Contains_iff simp del: append_assoc) blast+
  have b: "(\<forall>b. result opt \<noteq> PBool b) \<longrightarrow>
            (check opt t = Return True \<longleftrightarrow> drop 1 t = sname opt)"
    unfolding eq by (cases "result opt") auto
  have c: "(\<forall>b. result opt \<noteq> PBool b) \<longrightarrow>
            (\<forall>e. e \<noteq> [] \<and> t = ''-'' @ sname opt @ e \<longrightarrow> check opt t = Return False)"
    unfolding eq by (cases "result opt") auto
  have d: "check opt t = Return True \<or> check opt t = Return False"
    unfolding eq by simp
  have e: "check opt ''-h'' = Exit (parent_Usage opt)"
    by (simp add: check_Exit)
  from a b c d e show ?thesis by blast
qed

theorem check_short_name_witness:
  "sname example_arg \<noteq> [] \<and> 1 < length ''-o'' \<and> strings_HasPrefix ''-o'' ''-''
   \<and> ''-o'' ! 1 \<noteq> CHR ''-'' \<and> ''-o'' \<noteq> ''-h''
   \<and> check example_arg ''-o'' = Return True
   \<and> check example_arg ''-ov'' = Return False
   \<and> check flag_arg ''-vx'' = Return True
   \<and> check flag_arg ''-vw'' = Return False"
  using check_short_name [of example_arg "''-o''"] check_short_name [of example_arg "''-ov''"]
    check_short_name [of flag_arg "''-vx''"] check_short_name [of flag_arg "''-vw''"]
  by (simp add: example_arg_def flag_arg_def check_def strings_HasPrefix_def)

theorem check_short_name_help_counterexample:
  "sname help_arg \<noteq> [] \<and> 1 < length ''-h'' \<and> strings_HasPrefix ''-h'' ''-''
   \<and> ''-h'' ! 1 \<noteq> CHR ''-'' \<and> result help_arg = PHelp \<and> drop 1 ''-h'' = sname help_arg
   \<and> check help_arg ''-h'' = Exit ''usage'' \<and> check help_arg ''-h'' \<noteq> Return True"
  by (simp add: help_arg_def example_arg_def check_def strings_HasPrefix_def)

text \<open>
  Claim C6. For a definition with a non-empty long name and a token other than the
  reserved token \<open>--help\<close>: check returns true on a double-marker token (which only the
  long-name rule can accept) iff the token is longer than two characters, starts with the
  double marker, has a third character that is not the marker, and its remainder equals
  the long name; for a definition without a short name this is when check returns true at
  all; and a triple-marker token never matches. At the token \<open>--help\<close> check prints the
  usage text and leaves the process instead of returning.
\<close>

theorem check_long_name:
  assumes "lname opt \<noteq> []" and "t \<noteq> ''--help''"
  shows "((check opt t = Return True \<and> strings_HasPrefix t ''--'') \<longleftrightarrow>
            (2 < length t \<and> strings_HasPrefix t ''--'' \<and> t ! 2 \<noteq> CHR ''-''
               \<and> drop 2 t = lname opt))
       \<and> (sname opt = [] \<longrightarrow>
            (check opt t = Return True \<longleftrightarrow>
               (2 < length t \<and> strings_HasPrefix t ''--'' \<and> t ! 2 \<noteq> CHR ''-''
                  \<and> drop 2 t = lname opt)))
       \<and> (\<forall>r. t = ''---'' @ r \<longrightarrow> check opt t = Return False)
       \<and> check opt ''--help'' = Exit (parent_Usage opt)"
proof (cases "t = ''-h''")
  case True
  then have "check opt t = Exit (parent_Usage opt)" by (simp add: check_Exit)
  then show ?thesis using True by (simp add: strings_HasPrefix_def check_Exit)
next
  case False
  note eq = check_Return [OF False assms(2), of opt]
  have a: "(check opt t = Return True \<and> strings_HasPrefix t ''--'') \<longleftrightarrow>
            (2 < length t \<and> strings_HasPrefix t ''--'' \<and> t ! 2 \<noteq> CHR ''-''
               \<and> drop 2 t = lname opt)"
    unfolding eq using assms(1) by (auto dest: double_marker_not_short)
  have b: "sname opt = [] \<longrightarrow>
            (check opt t = Return True \<longleftrightarrow>
               (2 < length t \<and> strings_HasPrefix t ''--'' \<and> t ! 2 \<noteq> CHR ''-''
                  \<and> drop 2 t = lname opt))"
    unfolding eq using assms(1) by auto
  have c: "\<forall>r. t = ''---'' @ r \<longrightarrow> check opt t = Return False"
    unfolding eq by auto
  have d: "check opt ''--help'' = Exit (parent_Usage opt)"
    by (simp add: check_Exit)
  from a b c d show ?thesis by blast
qed

theorem check_long_name_witness:
  "lname example_arg \<noteq> [] \<and> ''--out'' \<noteq> ''--help''
   \<and> check example_arg ''--out'' = Return True
   \<and> check example_arg ''--outer'' = Return False
   \<and> check (example_arg\<lparr>sname := []\<rparr>) ''--out'' = Return True
   \<and> check example_arg ''---out'' = Return False"
  using check_long_name [of example_arg "''--out''"] check_long_name [of example_arg "''--outer''"]
    check_long_name [of "example_arg\<lparr>sname := []\<rparr>" "''--out''"]
    check_long_name [of example_arg "''---out''"]
  by (simp add: example_arg_def check_def strings_HasPrefix_def)

theorem check_long_name_help_counterexample:
  "lname help_arg \<noteq> [] \<and> 2 < length ''--help'' \<and> strings_HasPrefix ''--help'' ''--''
   \<and> ''--help'' ! 2 \<noteq> CHR ''-'' \<and> drop 2 ''--help'' = lname help_arg
   \<and> check help_arg ''--help'' = Exit ''usage'' \<and> check help_arg ''--help'' \<noteq> Return True"
  by (simp add: help_arg_def example_arg_def check_def strings_HasPrefix_def)

section \<open>Consumption\<close>

lemma reduce_long:
  assumes "0 \<le> position" and "position < int (length args)"
    and "lname opt \<noteq> []" and "2 < length (args ! nat position)"
    and "strings_HasPrefix (args ! nat position) ''--''"
    and "args ! nat position ! 2 \<noteq> CHR ''-''"
    and "drop 2 (args ! nat position) = lname opt"
  shows "reduce opt position args = blank_loop position (go_int (position + arg_size opt)) args"
proof -
  have s: "args ! nat position ! 1 = CHR ''-''"
    using assms(5) by (rule double_marker_not_short)
  show ?thesis
    using assms s unfolding reduce_def Let_def
    by (cases "blank_loop position (go_int (position + arg_size opt)) args") simp_all
qed

lemma reduce_no_match:
  assumes "0 \<le> position" and "position < int (length args)"
    and "length (args ! nat position) \<le> 1"
  shows "reduce opt position args = Return args"
  using assms unfolding reduce_def Let_def by simp

lemma reduce_flag:
  assumes "0 \<le> position" and "position < int (length args)"
    and "result opt = PBool b" and "sname opt \<noteq> []"
    and "1 < length (args ! nat position)"
    and "strings_HasPrefix (args ! nat position) ''-''"
    and "args ! nat position ! 1 \<noteq> CHR ''-''"
    and "strings_Contains (drop 1 (args ! nat position)) (sname opt)"
  shows "reduce opt position args =
     Return (args[nat position :=
       (if strings_Replace (args ! nat position) (sname opt) [] = ''-'' then []
        else strings_Replace (args ! nat position) (sname opt) [])])"
proof -
  have nl: "\<not> strings_HasPrefix (args ! nat position) ''--''"
    using assms by (simp add: single_marker_not_long)
  have lt: "nat position < length args"
    using assms(1,2) by arith
  show ?thesis
    using assms nl lt unfolding reduce_def Let_def by simp
qed

lemma blanked_nth:
  assumes "p + n \<le> length args" and "k < length args"
  shows "(take p args @ replicate n [] @ drop (p + n) args) ! k =
     (if p \<le> k \<and> k < p + n then [] else args ! k)"
proof -
  consider "k < p" | "p \<le> k" "k < p + n" | "p + n \<le> k" by linarith
  then show ?thesis
  proof cases
    case 1
    then show ?thesis using assms by (simp add: nth_append)
  next
    case 2
    then have "k - p < n" by arith
    with 2 show ?thesis using assms by (simp add: nth_append)
  next
    case 3
    then have a: "\<not> k < p" and b: "\<not> k - p < n" by arith+
    have c: "p + n + (k - p - n) = k" using 3 by arith
    show ?thesis using assms 3 a b c by (simp add: nth_append)
  qed
qed

text \<open>
  Claim C1. The field \<open>size\<close> counts the option token together with its follow-on
  tokens, so an option of arity \<open>arity\<close> has size \<open>arity + 1\<close>. For a definition with
  a non-empty long name and a token list (of a length Go can index) whose token at
  \<open>position\<close> matches the long name, provided the slots \<open>position .. position + arity\<close>
  all exist: reduce returns the list in which exactly these \<open>arity + 1\<close> slots are
  blank, the option token at \<open>position\<close> and the value tokens after it, every other
  slot and the length being unchanged. The loop does not test the length of the list:
  the example after the theorem is a list that ends too early, where reduce panics.
\<close>

theorem reduce_long_name:
  assumes "lname opt \<noteq> []"
    and "0 \<le> position" and "position < int (length args)" and "int (length args) < 2 ^ 63"
    and "2 < length (args ! nat position)"
    and "strings_HasPrefix (args ! nat position) ''--''"
    and "args ! nat position ! 2 \<noteq> CHR ''-''"
    and "drop 2 (args ! nat position) = lname opt"
    and "arg_size opt = int arity + 1"
    and "position + int arity < int (length args)"
  shows "\<exists>args'. reduce opt position args = Return args' \<and> length args' = length args
     \<and> (\<forall>k. k < length args \<longrightarrow>
          args' ! k = (if position \<le> int k \<and> int k \<le> position + int arity then [] else args ! k))"
proof -
  define p where "p = nat position"
  define stop where "stop = position + arg_size opt"
  have pos: "position = int p" using assms(2) by (simp add: p_def)
  have stop_le: "stop \<le> int (length args)" using assms(9,10) by (simp add: stop_def)
  have wrap: "go_int stop = stop"
    using stop_le assms(2,4,9) by (intro go_int_id) (simp_all add: stop_def)
  have le: "position \<le> stop" using assms(9) by (simp add: stop_def)
  have red: "reduce opt position args =
      Return (take (nat position) args @ replicate (nat (stop - position)) []
              @ drop (nat stop) args)"
    using reduce_long [OF assms(2,3,1,5,6,7,8)] blank_loop_ok [OF assms(2) le stop_le] wrap
    by (simp add: stop_def)
  have n1: "nat (stop - position) = arity + 1" using assms(9) by (simp add: stop_def)
  have n2: "nat stop = p + (arity + 1)" using assms(9) pos by (simp add: stop_def)
  have bound: "p + (arity + 1) \<le> length args" using assms(10) pos by simp
  let ?r = "take p args @ replicate (arity + 1) [] @ drop (p + (arity + 1)) args"
  have eq: "reduce opt position args = Return ?r"
    using red n1 n2 by (simp add: p_def)
  have len: "length ?r = length args" using bound by simp
  have nth: "\<forall>k. k < length args \<longrightarrow>
      ?r ! k = (if position \<le> int k \<and> int k \<le> position + int arity then [] else args ! k)"
  proof (intro allI impI)
    fix k assume "k < length args"
    from blanked_nth [OF bound this]
    show "?r ! k = (if position \<le> int k \<and> int k \<le> position + int arity then [] else args ! k)"
      using pos by auto
  qed
  from eq len nth show ?thesis by blast
qed

theorem reduce_long_name_witness:
  "lname example_arg \<noteq> [] \<and> arg_size example_arg = int 1 + 1
   \<and> (0::int) + int 1 < int (length [''--out'', ''v'', ''w''])
   \<and> reduce example_arg 0 [''--out'', ''v'', ''w''] = Return [[], [], ''w'']"
  using reduce_long_name [of example_arg 0 "[''--out'', ''v'', ''w'']" 1]
  by (simp add: example_arg_def reduce_def strings_HasPrefix_def go_int_def blank_loop.simps)

theorem reduce_long_name_short_list_counterexample:
  "lname example_arg \<noteq> [] \<and> arg_size example_arg = 2
   \<and> 2 < length ([''--out''] ! nat 0) \<and> strings_HasPrefix ([''--out''] ! nat 0) ''--''
   \<and> [''--out''] ! nat 0 ! 2 \<noteq> CHR ''-'' \<and> drop 2 ([''--out''] ! nat 0) = lname example_arg
   \<and> reduce example_arg 0 [''--out''] = Panic [[]]"
  by (simp add: example_arg_def reduce_def strings_HasPrefix_def go_int_def blank_loop.simps)

text \<open>
  Claim C5. For a Boolean-flag definition with a non-empty short name and a single-marker
  token at \<open>position\<close> whose remainder contains the short name: reduce rewrites that
  token only. The new token is the old one with the short name removed, unless that is
  the lone marker, in which case the token becomes blank. In particular, when the short
  name is one character that occurs once in the cluster, the new token is the cluster
  without that character (\<open>-xyz\<close> becomes \<open>-yz\<close>), and blank when nothing else was in
  the cluster (\<open>-x\<close> becomes the empty string).
\<close>

theorem reduce_flag_cluster:
  assumes "result opt = PBool b" and "sname opt \<noteq> []"
    and "0 \<le> position" and "position < int (length args)"
    and "args ! nat position = t"
    and "1 < length t" and "strings_HasPrefix t ''-''" and "t ! 1 \<noteq> CHR ''-''"
    and "\<exists>u v. drop 1 t = u @ sname opt @ v"
  shows "\<exists>new. reduce opt position args = Return (args[nat position := new])
     \<and> (strings_Replace t (sname opt) [] = ''-'' \<longrightarrow> new = [])
     \<and> (strings_Replace t (sname opt) [] \<noteq> ''-'' \<longrightarrow> new = strings_Replace t (sname opt) [])
     \<and> (\<forall>x pre post. sname opt = [x] \<and> x \<noteq> CHR ''-'' \<and> t = CHR ''-'' # pre @ x # post
            \<and> x \<notin> set pre \<and> x \<notin> set post \<longrightarrow>
          new = (if pre @ post = [] then [] else CHR ''-'' # pre @ post))"
proof -
  let ?r = "strings_Replace t (sname opt) []"
  let ?new = "if ?r = ''-'' then [] else ?r"
  have c: "strings_Contains (drop 1 (args ! nat position)) (sname opt)"
    using assms(5,9) by (simp only: Contains_iff)
  have red: "reduce opt position args = Return (args[nat position := ?new])"
    using reduce_flag [OF assms(3,4,1,2) _ _ _ c] assms(5,6,7,8) by simp
  have one: "\<forall>x pre post. sname opt = [x] \<and> x \<noteq> CHR ''-'' \<and> t = CHR ''-'' # pre @ x # post
            \<and> x \<notin> set pre \<and> x \<notin> set post \<longrightarrow>
          ?new = (if pre @ post = [] then [] else CHR ''-'' # pre @ post)"
    by (auto simp: Replace_once)
  from red one show ?thesis by (intro exI [of _ ?new]) simp
qed

theorem reduce_flag_cluster_witness:
  "result flag_arg = PBool False \<and> sname flag_arg = ''x''
   \<and> reduce flag_arg 1 [''-v'', ''-xyz'', ''-x''] = Return [''-v'', ''-yz'', ''-x'']
   \<and> reduce flag_arg 2 [''-v'', ''-xyz'', ''-x''] = Return [''-v'', ''-xyz'', []]"
  using reduce_flag_cluster [of flag_arg False 1 "[''-v'', ''-xyz'', ''-x'']" "''-xyz''"]
    reduce_flag_cluster [of flag_arg False 2 "[''-v'', ''-xyz'', ''-x'']" "''-x''"]
  by (simp add: flag_arg_def example_arg_def reduce_def strings_HasPrefix_def
      strings_Replace.simps)

text \<open>
  Claim C10. For a Boolean-flag definition and a matching cluster token, reduce removes
  every occurrence of the short name from the entire token in one call: the token becomes
  the result of \<open>strings.Replace\<close> with count \<open>-1\<close> (blank when only the marker is
  left); removing the leftmost occurrence continues with the rest of the token; and for
  a one-character short name the result is the token with every copy of that character
  filtered out, so that none is left (\<open>-xyx\<close> becomes \<open>-y\<close>).
\<close>

theorem reduce_flag_all_occurrences:
  assumes "result opt = PBool b" and "sname opt \<noteq> []"
    and "0 \<le> position" and "position < int (length args)"
    and "args ! nat position = t"
    and "1 < length t" and "strings_HasPrefix t ''-''" and "t ! 1 \<noteq> CHR ''-''"
    and "\<exists>u v. drop 1 t = u @ sname opt @ v"
  shows "reduce opt position args =
       Return (args[nat position :=
         (if strings_Replace t (sname opt) [] = ''-'' then []
          else strings_Replace t (sname opt) [])])
     \<and> (\<forall>u rest. t = u @ sname opt @ rest
            \<and> \<not> strings_Contains (u @ butlast (sname opt)) (sname opt) \<longrightarrow>
          strings_Replace t (sname opt) [] = u @ strings_Replace rest (sname opt) [])
     \<and> (\<forall>x. sname opt = [x] \<longrightarrow>
          strings_Replace t (sname opt) [] = filter (\<lambda>c. c \<noteq> x) t
          \<and> x \<notin> set (strings_Replace t (sname opt) []))"
proof -
  have c: "strings_Contains (drop 1 (args ! nat position)) (sname opt)"
    using assms(5,9) by (simp only: Contains_iff)
  have red: "reduce opt position args =
       Return (args[nat position :=
         (if strings_Replace t (sname opt) [] = ''-'' then []
          else strings_Replace t (sname opt) [])])"
    using reduce_flag [OF assms(3,4,1,2) _ _ _ c] assms(5,6,7,8) by simp
  have one: "\<forall>x. sname opt = [x] \<longrightarrow>
          strings_Replace t (sname opt) [] = filter (\<lambda>c. c \<noteq> x) t
          \<and> x \<notin> set (strings_Replace t (sname opt) [])"
    by (simp add: Replace_single)
  have first: "\<forall>u rest. t = u @ sname opt @ rest
            \<and> \<not> strings_Contains (u @ butlast (sname opt)) (sname opt) \<longrightarrow>
          strings_Replace t (sname opt) [] = u @ strings_Replace rest (sname opt) []"
    using Replace_first [OF assms(2), of _ _ "[]"] by auto
  from red first one show ?thesis by blast
qed

theorem reduce_flag_all_occurrences_witness:
  "result flag_arg = PBool False \<and> sname flag_arg = ''x''
   \<and> reduce flag_arg 0 [''-xyx'', ''rest''] = Return [''-y'', ''rest'']
   \<and> reduce flag_arg 0 [''-xx'', ''rest''] = Return [[], ''rest'']"
  using reduce_flag_all_occurrences [of flag_arg False 0 "[''-xyx'', ''rest'']" "''-xyx''"]
    reduce_flag_all_occurrences [of flag_arg False 0 "[''-xx'', ''rest'']" "''-xx''"]
  by (simp add: flag_arg_def example_arg_def reduce_def strings_HasPrefix_def
      strings_Replace.simps)

text \<open>
  Claim C9. For every definition, check on the empty token returns false, and reduce at a
  position whose token is empty returns the token list unchanged. Hence a slot that some
  reduce has blanked is neither matched nor consumed again by any definition.
\<close>

theorem blank_token_inert:
  "check opt [] = Return False
   \<and> (0 \<le> position \<and> position < int (length args) \<and> args ! nat position = [] \<longrightarrow>
        reduce opt position args = Return args)
   \<and> (reduce opt position args = Return args' \<and> k < length args' \<and> args' ! k = [] \<longrightarrow>
        check opt' (args' ! k) = Return False \<and> reduce opt' (int k) args' = Return args')"
proof -
  have a: "check opt' [] = Return False" for opt'
    by (simp add: check_def)
  have b: "reduce opt' q xs = Return xs"
    if "0 \<le> q" and "q < int (length xs)" and "xs ! nat q = []" for opt' q xs
    using that by (simp add: reduce_no_match)
  have c: "reduce opt' (int k) args' = Return args'" if "k < length args'" and "args' ! k = []"
    using that b [of "int k" args' opt'] by simp
  from a b c show ?thesis by auto
qed

theorem blank_token_inert_witness:
  "check flag_arg [] = Return False
   \<and> reduce flag_arg 0 [[], ''-x''] = Return [[], ''-x'']
   \<and> reduce example_arg 0 [''--out'', ''v'', ''-x''] = Return [[], [], ''-x'']
   \<and> check flag_arg ([[], [], ''-x''] ! 1) = Return False
   \<and> reduce flag_arg (int 1) [[], [], ''-x''] = Return [[], [], ''-x'']"
  using blank_token_inert [of flag_arg 0 "[[], ''-x'']"]
    blank_token_inert [of example_arg 0 "[''--out'', ''v'', ''-x'']" "[[], [], ''-x'']" 1 flag_arg]
  by (simp add: flag_arg_def example_arg_def reduce_def check_def strings_HasPrefix_def
      go_int_def blank_loop.simps)

section \<open>Binding\<close>

lemma fold_match:
  "fold (\<lambda>v match. if a = v then True else match) sel acc \<longleftrightarrow> acc \<or> a \<in> set sel"
  by (induction sel arbitrary: acc) auto

lemma selector_match_iff: "selector_match a sel \<longleftrightarrow> a \<in> set sel"
  by (simp add: selector_match_def fold_match)

lemma parse_duplicate:
  "unique opt \<Longrightarrow> parsed opt \<Longrightarrow>
   parse OpenFile opt args = Return (Some (''['' @ name opt @ ''] can only be present once''), opt)"
  by (simp add: parse_def)

lemma name_update [simp]:
  "name (opt\<lparr>result := r, parsed := p\<rparr>) = name opt"
  by (simp add: name_def)

lemma parse_checked:
  assumes "\<not> (unique opt \<and> parsed opt)" and "validate opt args = None"
  shows "parse OpenFile opt args =
     (case result opt of
        PHelp \<Rightarrow> Exit (parent_Usage opt)
      | PBool b \<Rightarrow> Return (None, opt\<lparr>result := PBool True, parsed := True\<rparr>)
      | PString s \<Rightarrow>
          (if length args < 1
           then Return (Some (''['' @ name opt @ ''] must be followed by a string''), opt)
           else if length args > 1
           then Return (Some (''['' @ name opt @ ''] followed by too many arguments''), opt)
           else if (case selector opt of
                      None \<Rightarrow> False
                    | Some sel \<Rightarrow> \<not> selector_match (args ! 0) sel)
           then Return (Some (''bad value for ['' @ name opt @ '']. Allowed values are [''
                                @ strings_Join (the (selector opt)) '' '' @ '']''), opt)
           else Return (None, opt\<lparr>result := PString (args ! 0), parsed := True\<rparr>))
      | PFile f0 \<Rightarrow>
          (if length args < 1
           then Return (Some (''['' @ name opt @ ''] must be followed by a path to file''), opt)
           else if length args > 1
           then Return (Some (''['' @ name opt @ ''] followed by too many arguments''), opt)
           else (case OpenFile (args ! 0) (fileFlag opt) (filePerm opt) of
                   Inl err \<Rightarrow> Return (Some err, opt)
                 | Inr f \<Rightarrow> Return (None, opt\<lparr>result := PFile f, parsed := True\<rparr>)))
      | PStrings l \<Rightarrow>
          (if length args < 1
           then Return (Some (''['' @ name opt @ ''] must be followed by a string''), opt)
           else if length args > 1
           then Return (Some (''['' @ name opt @ ''] followed by too many arguments''), opt)
           else Return (None, opt\<lparr>result := PStrings (l @ [args ! 0]), parsed := True\<rparr>))
      | POther t \<Rightarrow> Return (Some (''unsupported type ['' @ t @ '']''), opt))"
  unfolding parse_def using assms by (simp only: if_False option.case)

lemma parse_PString:
  assumes "result opt = PString s" and "\<not> (unique opt \<and> parsed opt)"
    and "validate opt args = None"
  shows "parse OpenFile opt args =
     (if length args < 1
      then Return (Some (''['' @ name opt @ ''] must be followed by a string''), opt)
      else if length args > 1
      then Return (Some (''['' @ name opt @ ''] followed by too many arguments''), opt)
      else if (case selector opt of None \<Rightarrow> False | Some sel \<Rightarrow> args ! 0 \<notin> set sel)
      then Return (Some (''bad value for ['' @ name opt @ '']. Allowed values are [''
                           @ strings_Join (the (selector opt)) '' '' @ '']''), opt)
      else Return (None, opt\<lparr>result := PString (args ! 0), parsed := True\<rparr>))"
  using parse_checked [OF assms(2,3), of OpenFile] assms(1)
  by (simp add: selector_match_iff split: option.splits)

lemma parse_rejected:
  assumes "\<not> (unique opt \<and> parsed opt)" and "validate opt args = Some err"
  shows "parse OpenFile opt args = Return (Some err, opt)"
  unfolding parse_def using assms by (simp only: if_False option.case)

lemma parse_error_same:
  assumes "parse OpenFile opt args = Return (Some e, opt')"
  shows "opt' = opt"
proof (cases "unique opt \<and> parsed opt")
  case True
  then show ?thesis using assms parse_duplicate [of opt OpenFile args] by simp
next
  case False
  show ?thesis
  proof (cases "validate opt args")
    case (Some err)
    then show ?thesis using assms parse_rejected [OF False Some, of OpenFile] by simp
  next
    case None
    note eq = parse_checked [OF False None, of OpenFile]
    show ?thesis
    proof (cases "result opt")
      case PHelp
      then show ?thesis using assms eq by simp
    next
      case (PBool b)
      then show ?thesis using assms eq by simp
    next
      case (PString s)
      then show ?thesis using assms eq by (simp split: if_splits)
    next
      case (PFile f0)
      then show ?thesis using assms eq by (simp split: if_splits sum.splits)
    next
      case (PStrings l)
      then show ?thesis using assms eq by (simp split: if_splits)
    next
      case (POther t)
      then show ?thesis using assms eq by simp
    qed
  qed
qed

lemma parse_success_parsed:
  assumes "parse OpenFile opt args = Return (None, opt')"
  shows "parsed opt' \<and> unique opt' = unique opt \<and> name opt' = name opt"
proof (cases "unique opt \<and> parsed opt")
  case True
  then show ?thesis using assms parse_duplicate [of opt OpenFile args] by simp
next
  case False
  show ?thesis
  proof (cases "validate opt args")
    case (Some err)
    then show ?thesis using assms parse_rejected [OF False Some, of OpenFile] by simp
  next
    case None
    note eq = parse_checked [OF False None, of OpenFile]
    show ?thesis
    proof (cases "result opt")
      case PHelp
      then show ?thesis using assms eq by simp
    next
      case (PBool b)
      then show ?thesis using assms eq by auto
    next
      case (PString s)
      then show ?thesis using assms eq by (auto split: if_splits)
    next
      case (PFile f0)
      then show ?thesis using assms eq by (auto split: if_splits sum.splits)
    next
      case (PStrings l)
      then show ?thesis using assms eq by (auto split: if_splits)
    next
      case (POther t)
      then show ?thesis using assms eq by simp
    qed
  qed
qed

text \<open>
  Claim C2. For a Single-string definition that passes the duplicate check (it is not a
  unique definition already parsed) and whose validator, if any, accepts the argument
  slice: parse of the empty slice returns the error "must be followed by a string"; parse
  of two or more tokens returns the error "followed by too many arguments"; with choices
  set, parse of one token that is among the choices succeeds, writes the token and marks
  the definition parsed, and parse of one token that is not among them returns the
  "bad value" error listing the allowed values. The definition is unchanged by each error.
  The examples after the theorem are a unique definition already parsed, which returns
  the duplicate error for the empty slice, and a rejecting validator, which returns its
  own error.
\<close>

theorem parse_single_string:
  assumes "result opt = PString s" and "\<not> (unique opt \<and> parsed opt)"
    and "validate opt args = None"
  shows "(args = [] \<longrightarrow>
            parse OpenFile opt args =
              Return (Some (''['' @ name opt @ ''] must be followed by a string''), opt))
       \<and> (2 \<le> length args \<longrightarrow>
            parse OpenFile opt args =
              Return (Some (''['' @ name opt @ ''] followed by too many arguments''), opt))
       \<and> (\<forall>tok sel. args = [tok] \<and> selector opt = Some sel \<and> tok \<in> set sel \<longrightarrow>
            parse OpenFile opt args =
              Return (None, opt\<lparr>result := PString tok, parsed := True\<rparr>))
       \<and> (\<forall>tok sel. args = [tok] \<and> selector opt = Some sel \<and> tok \<notin> set sel \<longrightarrow>
            parse OpenFile opt args =
              Return (Some (''bad value for ['' @ name opt @ '']. Allowed values are [''
                              @ strings_Join sel '' '' @ '']''), opt))"
  unfolding parse_PString [OF assms] by auto

theorem parse_single_string_witness:
  "result choice_arg = PString [] \<and> \<not> (unique choice_arg \<and> parsed choice_arg)
   \<and> validate choice_arg [] = None
   \<and> parse no_files choice_arg [] =
       Return (Some ''[-o|--out] must be followed by a string'', choice_arg)
   \<and> parse no_files choice_arg [''a'', ''b''] =
       Return (Some ''[-o|--out] followed by too many arguments'', choice_arg)
   \<and> parse no_files choice_arg [''b''] = Return (None, chosen_arg)
   \<and> parse no_files choice_arg [''c''] =
       Return (Some ''bad value for [-o|--out]. Allowed values are [a b]'', choice_arg)"
  using parse_single_string [of choice_arg "[]" "[]" no_files]
    parse_single_string [of choice_arg "[]" "[''a'', ''b'']" no_files]
    parse_single_string [of choice_arg "[]" "[''b'']" no_files]
    parse_single_string [of choice_arg "[]" "[''c'']" no_files]
  by (simp add: choice_arg_def chosen_arg_def example_arg_def validate_def name_def)

theorem parse_single_string_duplicate_counterexample:
  "result dup_arg = PString [] \<and> selector dup_arg = None
   \<and> parse no_files dup_arg [] = Return (Some ''[-o|--out] can only be present once'', dup_arg)
   \<and> parse no_files dup_arg [] \<noteq> Return (Some ''[-o|--out] must be followed by a string'', dup_arg)
   \<and> result validated_arg = PString []
   \<and> parse no_files validated_arg [] = Return (Some ''rejected by the validator'', validated_arg)"
  by (simp add: dup_arg_def validated_arg_def example_arg_def parse_def name_def validate_def
      reject_all_def)

text \<open>
  Claim C3. For a definition with \<open>unique\<close> set, a parse that succeeds leaves \<open>parsed\<close>
  true, and from then on every parse of that definition, with any argument slice and any
  file system, returns the error "can only be present once" naming the option and leaves
  the definition as it is.
\<close>

theorem parse_unique_twice:
  assumes "unique opt" and "parse OpenFile opt args = Return (None, opt')"
  shows "parsed opt'
     \<and> (\<forall>OpenFile' args'.
          parse OpenFile' opt' args' =
            Return (Some (''['' @ name opt @ ''] can only be present once''), opt'))"
proof -
  from parse_success_parsed [OF assms(2)]
  have p: "parsed opt'" and u: "unique opt'" and n: "name opt' = name opt"
    using assms(1) by simp_all
  show ?thesis using p parse_duplicate [OF u p] n by simp
qed

theorem parse_unique_twice_witness:
  "unique choice_arg \<and> parse no_files choice_arg [''b''] = Return (None, chosen_arg)
   \<and> parsed chosen_arg
   \<and> parse no_files chosen_arg [''a''] =
       Return (Some ''[-o|--out] can only be present once'', chosen_arg)
   \<and> parse no_files chosen_arg [] =
       Return (Some ''[-o|--out] can only be present once'', chosen_arg)"
  using parse_unique_twice [of choice_arg no_files "[''b'']" chosen_arg]
  by (simp add: choice_arg_def chosen_arg_def example_arg_def parse_def validate_def name_def
      selector_match_def)

text \<open>
  Claim C7. Whenever parse returns an error, whatever its kind, the flag \<open>parsed\<close> of the
  definition is as it was before the call (and so is the output slot).
\<close>

theorem parse_error_keeps_parsed:
  assumes "parse OpenFile opt args = Return (Some e, opt')"
  shows "parsed opt' = parsed opt \<and> result opt' = result opt"
  using parse_error_same [OF assms] by simp

theorem parse_error_keeps_parsed_witness:
  "parse no_files dup_arg [''v''] =
     Return (Some ''[-o|--out] can only be present once'', dup_arg)
   \<and> parse no_files validated_arg [''v''] =
     Return (Some ''rejected by the validator'', validated_arg)
   \<and> parse no_files example_arg [] =
     Return (Some ''[-o|--out] must be followed by a string'', example_arg)
   \<and> parse no_files choice_arg [''c''] =
     Return (Some ''bad value for [-o|--out]. Allowed values are [a b]'', choice_arg)
   \<and> parse no_files file_arg [''f''] =
     Return (Some ''open f: no such file or directory'', file_arg)
   \<and> parse no_files other_arg [''v''] =
     Return (Some ''unsupported type [%!t(*int=0xc000012345)]'', other_arg)
   \<and> parsed dup_arg \<and> \<not> parsed example_arg"
  using parse_error_keeps_parsed [of no_files dup_arg "[''v'']"]
    parse_error_keeps_parsed [of no_files example_arg "[]"]
  by (simp add: dup_arg_def validated_arg_def choice_arg_def file_arg_def other_arg_def
      example_arg_def parse_def validate_def name_def selector_match_def reject_all_def
      no_files_def)

section \<open>Naming and usage\<close>

text \<open>
  Claim C8. A Single-string definition with short name \<open>o\<close>, long name \<open>out\<close> and no
  choices renders as \<open>-o|--out "<value>"\<close> when it is required and as
  \<open>[-o|--out "<value>"]\<close> when it is not (no options, or options that do not require it).
  The name of a definition is \<open>-<short>\<close> with only a short name, \<open>--<long>\<close> with only a
  long name, and \<open>-<short>|--<long>\<close> with both.
\<close>

theorem usage_single_string:
  "(sname opt = ''o'' \<and> lname opt = ''out'' \<and> (\<exists>s. result opt = PString s)
      \<and> selector opt = None \<longrightarrow>
      ((\<exists>os. opts opt = Some os \<and> Required os) \<longrightarrow>
         usage opt = ''-o|--out '' @ [CHR 0x22] @ ''<value>'' @ [CHR 0x22])
      \<and> (opts opt = None \<or> (\<exists>os. opts opt = Some os \<and> \<not> Required os) \<longrightarrow>
         usage opt = ''[-o|--out '' @ [CHR 0x22] @ ''<value>'' @ [CHR 0x22] @ '']''))
   \<and> (sname a \<noteq> [] \<and> lname a = [] \<longrightarrow> name a = ''-'' @ sname a)
   \<and> (sname a = [] \<and> lname a \<noteq> [] \<longrightarrow> name a = ''--'' @ lname a)
   \<and> (sname a \<noteq> [] \<and> lname a \<noteq> [] \<longrightarrow> name a = ''-'' @ sname a @ ''|--'' @ lname a)"
proof -
  have n: "(sname a \<noteq> [] \<and> lname a = [] \<longrightarrow> name a = ''-'' @ sname a)
   \<and> (sname a = [] \<and> lname a \<noteq> [] \<longrightarrow> name a = ''--'' @ lname a)
   \<and> (sname a \<noteq> [] \<and> lname a \<noteq> [] \<longrightarrow> name a = ''-'' @ sname a @ ''|--'' @ lname a)"
    by (simp add: name_def)
  have u: "sname opt = ''o'' \<and> lname opt = ''out'' \<and> (\<exists>s. result opt = PString s)
      \<and> selector opt = None \<longrightarrow>
      ((\<exists>os. opts opt = Some os \<and> Required os) \<longrightarrow>
         usage opt = ''-o|--out '' @ [CHR 0x22] @ ''<value>'' @ [CHR 0x22])
      \<and> (opts opt = None \<or> (\<exists>os. opts opt = Some os \<and> \<not> Required os) \<longrightarrow>
         usage opt = ''[-o|--out '' @ [CHR 0x22] @ ''<value>'' @ [CHR 0x22] @ '']'')"
    by (auto simp: usage_def name_def dquote_def)
  from n u show ?thesis by blast
qed

theorem usage_single_string_witness:
  "sname required_arg = ''o'' \<and> lname required_arg = ''out'' \<and> result required_arg = PString []
   \<and> selector required_arg = None
   \<and> usage required_arg = ''-o|--out '' @ [CHR 0x22] @ ''<value>'' @ [CHR 0x22]
   \<and> usage optional_arg = ''[-o|--out '' @ [CHR 0x22] @ ''<value>'' @ [CHR 0x22] @ '']''
   \<and> usage example_arg = ''[-o|--out '' @ [CHR 0x22] @ ''<value>'' @ [CHR 0x22] @ '']''
   \<and> name (example_arg\<lparr>lname := []\<rparr>) = ''-o''
   \<and> name (example_arg\<lparr>sname := []\<rparr>) = ''--out''
   \<and> name example_arg = ''-o|--out''"
  using usage_single_string [of required_arg "example_arg\<lparr>lname := []\<rparr>"]
    usage_single_string [of optional_arg "example_arg\<lparr>sname := []\<rparr>"]
    usage_single_string [of example_arg example_arg]
  by (simp add: required_arg_def optional_arg_def example_arg_def usage_def name_def dquote_def)

end
